theory Spec2Isabelle
  imports Main "HOL-Library.Sublist"
begin

section \<open>The in-memory token store of server.js\<close>

text \<open>
  The server keeps two JavaScript maps: \<^verbatim>\<open>tokensByUser\<close> (userId to a Set of tokens) and
  \<^verbatim>\<open>metaByToken\<close> (token to a metadata object). A JavaScript Set remembers the order in
  which its elements were inserted and \<^verbatim>\<open>Array.from\<close> reads it in that order, so a Set
  is a list without duplicates here: \<open>set_add\<close> appends an element that is not yet there,
  \<open>set_delete\<close> takes it out. User ids, tokens and platform tags are strings.
\<close>

record token_meta =
  userId :: string
  platform :: string
  updatedAt :: string

record registry =
  tokensByUser :: "string \<rightharpoonup> string list"
  metaByToken :: "string \<rightharpoonup> token_meta"

definition empty_registry :: registry where
  "empty_registry = \<lparr>tokensByUser = Map.empty, metaByToken = Map.empty\<rparr>"

definition set_add :: "string list \<Rightarrow> string \<Rightarrow> string list" where
  "set_add xs t = (if t \<in> set xs then xs else xs @ [t])"

definition set_delete :: "string list \<Rightarrow> string \<Rightarrow> string list" where
  "set_delete xs t = removeAll t xs"

text \<open>
  A field of a request body is an optional string: \<open>None\<close> when the body does not have it
  (undefined). Such a value is truthy when it is there and is not the empty string, and
  \<^verbatim>\<open>x || d\<close> takes the default \<open>d\<close> when \<open>x\<close> is not truthy.
\<close>

definition truthy :: "string option \<Rightarrow> bool" where
  "truthy x = (case x of None \<Rightarrow> False | Some s \<Rightarrow> s \<noteq> [])"

definition or_default :: "string option \<Rightarrow> string \<Rightarrow> string" where
  "or_default x d = (case x of None \<Rightarrow> d | Some s \<Rightarrow> if s = [] then d else s)"

text \<open>
  \<^verbatim>\<open>upsertToken({ userId, token, platform })\<close>, lines 132 to 141. The clock reading
  \<^verbatim>\<open>new Date().toISOString()\<close> is the parameter \<open>now\<close>.
\<close>

definition upsertToken :: "string \<Rightarrow> string \<Rightarrow> string option \<Rightarrow> string \<Rightarrow> registry \<Rightarrow> registry" where
  "upsertToken u t p now r =
     (let tbu = (if tokensByUser r u = None then (tokensByUser r)(u \<mapsto> []) else tokensByUser r);
          tbu' = tbu(u \<mapsto> set_add (the (tbu u)) t)
      in \<lparr>tokensByUser = tbu',
          metaByToken = (metaByToken r)(t \<mapsto>
            \<lparr>userId = u, platform = or_default p ''android'', updatedAt = now\<rparr>)\<rparr>)"

text \<open>\<^verbatim>\<open>removeToken({ userId, token })\<close>, lines 143 to 149.\<close>

definition removeToken :: "string \<Rightarrow> string \<Rightarrow> registry \<Rightarrow> registry" where
  "removeToken u t r =
     (let tbu =
        (if u \<noteq> [] \<and> tokensByUser r u \<noteq> None then
           (let tbu1 = (tokensByUser r)(u \<mapsto> set_delete (the (tokensByUser r u)) t)
            in if length (the (tbu1 u)) = 0 then tbu1(u := None) else tbu1)
         else tokensByUser r)
      in \<lparr>tokensByUser = tbu, metaByToken = (metaByToken r)(t := None)\<rparr>)"

text \<open>
  The registry accessors of the specification. The source reads the store directly:
  \<^verbatim>\<open>tokensByUser.get(userId)\<close> with a missing entry treated like an empty Set (line 309),
  and \<^verbatim>\<open>metaByToken.get(t)\<close>.
\<close>

definition tokensOf :: "registry \<Rightarrow> string \<Rightarrow> string list" where
  "tokensOf r u = (case tokensByUser r u of None \<Rightarrow> [] | Some ts \<Rightarrow> ts)"

definition metadataOf :: "registry \<Rightarrow> string \<Rightarrow> token_meta option" where
  "metadataOf r t = metaByToken r t"

section \<open>Payload values and their normalisation\<close>

text \<open>
  The request body is parsed JSON. A JavaScript number is a double; the numbers of the model
  are the safe integers, those of absolute value below \<open>2 ^ 53\<close>, which a double holds
  exactly and which \<^verbatim>\<open>JSON.stringify\<close> prints in plain decimal. Every other number (a
  fraction, a larger magnitude) is a floating-point value and is not a value of the model.
  An object is the list of its own properties in the order \<^verbatim>\<open>Object.entries\<close> reads
  them; a string is a list of code units.
\<close>

typedef safe_int = "{n :: int. - (2 ^ 53) < n \<and> n < 2 ^ 53}"
  by (rule exI[of _ 0]) simp

datatype json =
    JNull
  | JBool bool
  | JNum safe_int
  | JStr string
  | JArr "json list"
  | JObj "(string \<times> json) list"

text \<open>\<^verbatim>\<open>!v\<close> is true of null, false, 0 and the empty string.\<close>

fun js_truthy :: "json \<Rightarrow> bool" where
  "js_truthy JNull = False"
| "js_truthy (JBool b) = b"
| "js_truthy (JNum n) = (Rep_safe_int n \<noteq> 0)"
| "js_truthy (JStr s) = (s \<noteq> [])"
| "js_truthy (JArr xs) = True"
| "js_truthy (JObj kvs) = True"

definition value_truthy :: "json option \<Rightarrow> bool" where
  "value_truthy x = (case x of None \<Rightarrow> False | Some v \<Rightarrow> js_truthy v)"

definition value_or :: "json option \<Rightarrow> json \<Rightarrow> json" where
  "value_or x d = (case x of None \<Rightarrow> d | Some v \<Rightarrow> if js_truthy v then v else d)"

subsection \<open>\<^verbatim>\<open>JSON.stringify\<close>\<close>

definition digit_char :: "nat \<Rightarrow> char" where
  "digit_char n = ''0123456789abcdef'' ! n"

fun show_nat :: "nat \<Rightarrow> string" where
  "show_nat n = (if n < 10 then [digit_char n] else show_nat (n div 10) @ [digit_char (n mod 10)])"

declare show_nat.simps [simp del]

definition show_int :: "int \<Rightarrow> string" where
  "show_int i = (if i < 0 then CHR ''-'' # show_nat (nat (- i)) else show_nat (nat i))"

text \<open>
  Inside a quoted string the double quote (0x22) and the backslash (0x5C) are escaped, the
  control characters below 0x20 are written with their short escape or as
  \<^verbatim>\<open>u00XX\<close> after a backslash, and every other code unit is kept.
\<close>

definition escape_char :: "char \<Rightarrow> string" where
  "escape_char c =
     (if c = CHR 0x22 then [CHR 0x5C, CHR 0x22]
      else if c = CHR 0x5C then [CHR 0x5C, CHR 0x5C]
      else if c = CHR 0x08 then [CHR 0x5C, CHR ''b'']
      else if c = CHR 0x09 then [CHR 0x5C, CHR ''t'']
      else if c = CHR 0x0A then [CHR 0x5C, CHR ''n'']
      else if c = CHR 0x0C then [CHR 0x5C, CHR ''f'']
      else if c = CHR 0x0D then [CHR 0x5C, CHR ''r'']
      else if (of_char c :: nat) < 32 then
        [CHR 0x5C, CHR ''u'', CHR ''0'', CHR ''0'',
         digit_char ((of_char c :: nat) div 16), digit_char ((of_char c :: nat) mod 16)]
      else [c])"

definition json_quote :: "string \<Rightarrow> string" where
  "json_quote s = CHR 0x22 # concat (map escape_char s) @ [CHR 0x22]"

fun join_with :: "string \<Rightarrow> string list \<Rightarrow> string" where
  "join_with sep [] = []"
| "join_with sep [x] = x"
| "join_with sep (x # y # ys) = x @ sep @ join_with sep (y # ys)"

fun JSON_stringify :: "json \<Rightarrow> string" where
  "JSON_stringify JNull = ''null''"
| "JSON_stringify (JBool b) = (if b then ''true'' else ''false'')"
| "JSON_stringify (JNum n) = show_int (Rep_safe_int n)"
| "JSON_stringify (JStr s) = json_quote s"
| "JSON_stringify (JArr xs) = ''['' @ join_with '','' (map JSON_stringify xs) @ '']''"
| "JSON_stringify (JObj kvs) =
     ''{'' @ join_with '','' (map (\<lambda>kv. json_quote (fst kv) @ '':'' @ JSON_stringify (snd kv)) kvs) @ ''}''"

subsection \<open>\<^verbatim>\<open>ensureStringData\<close>, lines 151 to 158\<close>

text \<open>
  \<^verbatim>\<open>Object.entries\<close>: the properties of an object, the elements of an array under their
  indexes, the code units of a string under their indexes, nothing for a number or a
  boolean.
\<close>

fun object_entries :: "json \<Rightarrow> (string \<times> json) list" where
  "object_entries (JObj kvs) = kvs"
| "object_entries (JArr xs) = zip (map show_nat [0..<length xs]) xs"
| "object_entries (JStr s) = zip (map show_nat [0..<length s]) (map (\<lambda>c. JStr [c]) s)"
| "object_entries v = []"

text \<open>\<^verbatim>\<open>typeof v === "string" ? v : JSON.stringify(v)\<close>\<close>

definition string_value :: "json \<Rightarrow> string" where
  "string_value v = (case v of JStr s \<Rightarrow> s | _ \<Rightarrow> JSON_stringify v)"

text \<open>
  \<^verbatim>\<open>out[k] = s\<close> on the plain object \<^verbatim>\<open>out = {}\<close>, with \<open>s\<close> a string. The object
  inherits the accessor property \<^verbatim>\<open>__proto__\<close> of \<^verbatim>\<open>Object.prototype\<close>, so an
  assignment under that key runs the inherited setter, which ignores a value that is
  neither an object nor null: no property is created. Under every other key the
  assignment creates or overwrites an own property.
\<close>

definition assign_property :: "(string \<rightharpoonup> string) \<Rightarrow> string \<Rightarrow> string \<Rightarrow> (string \<rightharpoonup> string)" where
  "assign_property out k s = (if k = ''__proto__'' then out else out(k \<mapsto> s))"

definition ensureStringData :: "json option \<Rightarrow> (string \<rightharpoonup> string)" where
  "ensureStringData data =
     fold (\<lambda>kv out. assign_property out (fst kv) (string_value (snd kv)))
       (object_entries (value_or data (JObj []))) Map.empty"

section \<open>The provider and the routes\<close>

text \<open>
  The Firebase messaging client is outside the repository: a call either throws (\<open>Inl\<close>,
  carrying the text that \<^verbatim>\<open>String(e)\<close> gives) or returns. The provider is a parameter
  of each route, and every call made is recorded in the outcome.
\<close>

record fcm_error =
  code :: string
  message :: string

record send_response =
  success :: bool
  messageId :: "string option"
  error :: "fcm_error option"

record batch_response =
  responses :: "send_response list"
  successCount :: nat
  failureCount :: nat

datatype provider_call =
    SendEachForMulticast (tokens: "string list") (data: "string \<rightharpoonup> string") (android: json)
  | Send (token: string) (data: "string \<rightharpoonup> string") (android: json)

type_synonym multicast_provider = "string list \<Rightarrow> (string \<rightharpoonup> string) \<Rightarrow> json \<Rightarrow> string + batch_response"
type_synonym single_provider = "string \<Rightarrow> (string \<rightharpoonup> string) \<Rightarrow> json \<Rightarrow> string + string"

datatype reply =
    Status200_ok
  | Status200_counts nat nat
  | Status200_messageId string
  | Status400 string
  | Status404 string
  | Status500 string

record outcome =
  reply :: reply
  store :: registry
  calls :: "provider_call list"

definition high_priority :: json where
  "high_priority = JObj [(''priority'', JStr ''high'')]"

text \<open>\<^verbatim>\<open>code.includes(sub)\<close>: \<open>sub\<close> occurs in \<open>code\<close> as a contiguous run.\<close>

fun str_includes :: "string \<Rightarrow> string \<Rightarrow> bool" where
  "str_includes [] sub = (sub = [])"
| "str_includes (c # cs) sub = (prefix sub (c # cs) \<or> str_includes cs sub)"

text \<open>\<^verbatim>\<open>tokens[idx]\<close>, undefined beyond the end of the array.\<close>

definition at_index :: "string list \<Rightarrow> nat \<Rightarrow> string option" where
  "at_index xs i = (if i < length xs then Some (xs ! i) else None)"

text \<open>
  The body of the \<^verbatim>\<open>forEach\<close> callback, lines 328 to 336, and the loop over the
  responses with its running index.
\<close>

definition cleanup_response :: "string list \<Rightarrow> send_response \<Rightarrow> nat \<Rightarrow> registry \<Rightarrow> registry" where
  "cleanup_response toks r idx reg =
     (if \<not> success r then
        (let t = at_index toks idx;
             c = (case error r of None \<Rightarrow> [] | Some e \<Rightarrow> code e)
         in if str_includes c ''registration-token-not-registered'' \<or> str_includes c ''invalid-argument'' then
              (case t of
                 None \<Rightarrow> reg
               | Some tok \<Rightarrow>
                   (case metaByToken reg tok of
                      None \<Rightarrow> reg
                    | Some meta \<Rightarrow> if userId meta \<noteq> [] then removeToken (userId meta) tok reg else reg))
            else reg)
      else reg)"

fun cleanup :: "string list \<Rightarrow> send_response list \<Rightarrow> nat \<Rightarrow> registry \<Rightarrow> registry" where
  "cleanup toks [] idx reg = reg"
| "cleanup toks (r # rs) idx reg = cleanup toks rs (Suc idx) (cleanup_response toks r idx reg)"

text \<open>\<^verbatim>\<open>POST /devices/register\<close>, lines 184 to 195.\<close>

definition devices_register ::
  "string option \<Rightarrow> string option \<Rightarrow> string option \<Rightarrow> string \<Rightarrow> registry \<Rightarrow> outcome" where
  "devices_register uid tok plat now r =
     (if \<not> truthy uid \<or> \<not> truthy tok then
        \<lparr>reply = Status400 ''userId and token are required'', store = r, calls = []\<rparr>
      else
        \<lparr>reply = Status200_ok,
         store = upsertToken (the uid) (the tok) (Some (or_default plat ''android'')) now r,
         calls = []\<rparr>)"

text \<open>\<^verbatim>\<open>PUT /devices/token\<close>, lines 221 to 241.\<close>

definition devices_token ::
  "string option \<Rightarrow> string option \<Rightarrow> string option \<Rightarrow> string option \<Rightarrow> string \<Rightarrow> registry \<Rightarrow> outcome" where
  "devices_token uid tok oldToken plat now r =
     (if \<not> truthy uid \<or> \<not> truthy tok then
        \<lparr>reply = Status400 ''userId and token are required'', store = r, calls = []\<rparr>
      else
        (let r1 = (if truthy oldToken \<and> oldToken \<noteq> tok then removeToken (the uid) (the oldToken) r else r)
         in \<lparr>reply = Status200_ok,
             store = upsertToken (the uid) (the tok) (Some (or_default plat ''android'')) now r1,
             calls = []\<rparr>))"

text \<open>\<^verbatim>\<open>DELETE /devices/unregister\<close>, lines 265 to 272.\<close>

definition devices_unregister :: "string option \<Rightarrow> string option \<Rightarrow> registry \<Rightarrow> outcome" where
  "devices_unregister uid tok r =
     (if \<not> truthy uid \<or> \<not> truthy tok then
        \<lparr>reply = Status400 ''userId and token are required'', store = r, calls = []\<rparr>
      else
        \<lparr>reply = Status200_ok, store = removeToken (the uid) (the tok) r, calls = []\<rparr>)"

text \<open>\<^verbatim>\<open>POST /notifications/send\<close>, lines 302 to 347: the send to all devices of a user.\<close>

definition notifications_send ::
  "string option \<Rightarrow> json option \<Rightarrow> json option \<Rightarrow> multicast_provider \<Rightarrow> registry \<Rightarrow> outcome" where
  "notifications_send uid dat andr sendEachForMulticast r =
     (if \<not> truthy uid \<or> \<not> value_truthy dat then
        \<lparr>reply = Status400 ''userId and data are required'', store = r, calls = []\<rparr>
      else
        (case tokensByUser r (the uid) of
           None \<Rightarrow> \<lparr>reply = Status404 ''No tokens for this user'', store = r, calls = []\<rparr>
         | Some tokenSet \<Rightarrow>
             if length tokenSet = 0 then
               \<lparr>reply = Status404 ''No tokens for this user'', store = r, calls = []\<rparr>
             else
               (let toks = tokenSet;
                    payloadData = ensureStringData dat;
                    opts = value_or andr high_priority
                in case sendEachForMulticast toks payloadData opts of
                     Inl e \<Rightarrow>
                       \<lparr>reply = Status500 e, store = r,
                        calls = [SendEachForMulticast toks payloadData opts]\<rparr>
                   | Inr resp \<Rightarrow>
                       \<lparr>reply = Status200_counts (successCount resp) (failureCount resp),
                        store = cleanup toks (responses resp) 0 r,
                        calls = [SendEachForMulticast toks payloadData opts]\<rparr>)))"

text \<open>\<^verbatim>\<open>POST /notifications/sendToToken\<close>, lines 376 to 393: the send to one token.\<close>

definition notifications_sendToToken ::
  "string option \<Rightarrow> json option \<Rightarrow> json option \<Rightarrow> single_provider \<Rightarrow> registry \<Rightarrow> outcome" where
  "notifications_sendToToken tok dat andr send r =
     (if \<not> truthy tok \<or> \<not> value_truthy dat then
        \<lparr>reply = Status400 ''token and data are required'', store = r, calls = []\<rparr>
      else
        (let payloadData = ensureStringData dat;
             opts = value_or andr high_priority
         in case send (the tok) payloadData opts of
              Inl e \<Rightarrow> \<lparr>reply = Status500 e, store = r, calls = [Send (the tok) payloadData opts]\<rparr>
            | Inr mid \<Rightarrow>
                \<lparr>reply = Status200_messageId mid, store = r, calls = [Send (the tok) payloadData opts]\<rparr>))"

subsection \<open>Sequences of requests\<close>

datatype request =
    Register "string option" "string option" "string option" string
  | UpdateToken "string option" "string option" "string option" "string option" string
  | Unregister "string option" "string option"
  | SendToUser "string option" "json option" "json option" multicast_provider
  | SendToToken "string option" "json option" "json option" single_provider

fun handle :: "request \<Rightarrow> registry \<Rightarrow> outcome" where
  "handle (Register uid tok plat now) r = devices_register uid tok plat now r"
| "handle (UpdateToken uid tok oldToken plat now) r = devices_token uid tok oldToken plat now r"
| "handle (Unregister uid tok) r = devices_unregister uid tok r"
| "handle (SendToUser uid dat andr prov) r = notifications_send uid dat andr prov r"
| "handle (SendToToken tok dat andr prov) r = notifications_sendToToken tok dat andr prov r"

fun run :: "request list \<Rightarrow> registry \<Rightarrow> registry" where
  "run [] r = r"
| "run (q # qs) r = run qs (store (handle q r))"

section \<open>Properties of the store\<close>

text \<open>
  What every store reached by the routes satisfies: a user entry is keyed by a non-empty
  user id and holds a non-empty Set, and a token with metadata is a member of the Set of the
  user its metadata names.
\<close>

definition store_inv :: "registry \<Rightarrow> bool" where
  "store_inv r \<longleftrightarrow>
     (\<forall>u ts. tokensByUser r u = Some ts \<longrightarrow> u \<noteq> [] \<and> ts \<noteq> [] \<and> distinct ts) \<and>
     (\<forall>t m. metaByToken r t = Some m \<longrightarrow> userId m \<noteq> [] \<and> t \<in> set (tokensOf r (userId m)))"

text \<open>
  The two indexes in lock-step: every token in some user's Set has metadata, and every
  token with metadata is in some user's Set.
\<close>

definition lock_step :: "registry \<Rightarrow> bool" where
  "lock_step r \<longleftrightarrow>
     (\<forall>u t. t \<in> set (tokensOf r u) \<longrightarrow> metadataOf r t \<noteq> None) \<and>
     (\<forall>t. metadataOf r t \<noteq> None \<longrightarrow> (\<exists>u. t \<in> set (tokensOf r u)))"

text \<open>
  \<open>names_owner own q\<close>: the register, update or unregister request \<open>q\<close> names its token
  (and its old token) together with the user that \<open>own\<close> gives to that token.
  \<open>owned_inv own r\<close>: every token in a user's Set is given to that user by \<open>own\<close> and has
  metadata that names that user.
\<close>

fun names_owner :: "(string \<Rightarrow> string) \<Rightarrow> request \<Rightarrow> bool" where
  "names_owner own (Register (Some u) (Some t) plat now) = (own t = u)"
| "names_owner own (UpdateToken (Some u) (Some t) None plat now) = (own t = u)"
| "names_owner own (UpdateToken (Some u) (Some t) (Some old) plat now) = (own t = u \<and> own old = u)"
| "names_owner own (Unregister (Some u) (Some t)) = (own t = u)"
| "names_owner own q = True"

definition owned_inv :: "(string \<Rightarrow> string) \<Rightarrow> registry \<Rightarrow> bool" where
  "owned_inv own r \<longleftrightarrow>
     (\<forall>u t. t \<in> set (tokensOf r u) \<longrightarrow> own t = u \<and> (\<exists>m. metaByToken r t = Some m \<and> userId m = u))"

text \<open>
  A per-token outcome that the send route classifies as a token that is not valid any more:
  a failure whose error code contains \<^verbatim>\<open>registration-token-not-registered\<close> or
  \<^verbatim>\<open>invalid-argument\<close> (line 332).
\<close>

definition permanently_invalid :: "send_response \<Rightarrow> bool" where
  "permanently_invalid x \<longleftrightarrow>
     \<not> success x \<and>
     (case error x of None \<Rightarrow> False
      | Some e \<Rightarrow> str_includes (code e) ''registration-token-not-registered'' \<or>
                  str_includes (code e) ''invalid-argument'')"

section \<open>The store operations on the two indexes\<close>

lemma upsert_tokensByUser:
  "tokensByUser (upsertToken u t p now r) = (tokensByUser r)(u \<mapsto> set_add (tokensOf r u) t)"
  by (auto simp: upsertToken_def tokensOf_def Let_def split: option.splits)

lemma upsert_metaByToken:
  "metaByToken (upsertToken u t p now r) =
     (metaByToken r)(t \<mapsto> \<lparr>userId = u, platform = or_default p ''android'', updatedAt = now\<rparr>)"
  by (simp add: upsertToken_def Let_def)

lemma remove_tokensByUser:
  "tokensByUser (removeToken u t r) =
     (if u \<noteq> [] \<and> tokensByUser r u \<noteq> None then
        (if set_delete (tokensOf r u) t = [] then (tokensByUser r)(u := None)
         else (tokensByUser r)(u \<mapsto> set_delete (tokensOf r u) t))
      else tokensByUser r)"
  by (auto simp: removeToken_def tokensOf_def Let_def split: option.splits)

lemma remove_metaByToken: "metaByToken (removeToken u t r) = (metaByToken r)(t := None)"
  by (simp add: removeToken_def Let_def)

lemma tokensOf_upsert:
  "tokensOf (upsertToken u t p now r) u' = (if u' = u then set_add (tokensOf r u) t else tokensOf r u')"
  by (simp add: tokensOf_def upsert_tokensByUser)

lemma tokensOf_remove:
  "tokensOf (removeToken u t r) u' =
     (if u' = u \<and> u \<noteq> [] then set_delete (tokensOf r u) t else tokensOf r u')"
  by (auto simp: tokensOf_def remove_tokensByUser split: option.splits simp: set_delete_def)

lemma set_set_add: "set (set_add xs t) = insert t (set xs)"
  by (auto simp: set_add_def)

lemma set_set_delete: "set (set_delete xs t) = set xs - {t}"
  by (auto simp: set_delete_def)

lemma distinct_set_add: "distinct xs \<Longrightarrow> distinct (set_add xs t)"
  by (auto simp: set_add_def)

lemma distinct_set_delete: "distinct xs \<Longrightarrow> distinct (set_delete xs t)"
  by (auto simp: set_delete_def distinct_removeAll)

lemma set_add_idem: "set_add (set_add xs t) t = set_add xs t"
  by (auto simp: set_add_def)

lemma store_inv_empty: "store_inv empty_registry"
  by (simp add: store_inv_def empty_registry_def)

lemma set_add_not_Nil: "set_add xs t \<noteq> []"
  by (auto simp: set_add_def)

lemma store_inv_tokensOf_distinct: "store_inv r \<Longrightarrow> distinct (tokensOf r u)"
  by (auto simp: store_inv_def tokensOf_def split: option.splits)

lemma store_inv_upsert:
  assumes "store_inv r" "u \<noteq> []"
  shows "store_inv (upsertToken u t p now r)"
proof -
  have a: "u' \<noteq> [] \<and> ts \<noteq> [] \<and> distinct ts"
    if "tokensByUser (upsertToken u t p now r) u' = Some ts" for u' ts
    using that assms store_inv_tokensOf_distinct[OF assms(1), of u]
    by (auto simp: upsert_tokensByUser store_inv_def set_add_not_Nil distinct_set_add split: if_splits)
  have b: "userId m \<noteq> [] \<and> t' \<in> set (tokensOf (upsertToken u t p now r) (userId m))"
    if "metaByToken (upsertToken u t p now r) t' = Some m" for t' m
    using that assms
    by (auto simp: upsert_metaByToken tokensOf_upsert set_set_add store_inv_def split: if_splits)
  show ?thesis unfolding store_inv_def using a b by blast
qed

lemma store_inv_remove:
  assumes "store_inv r"
  shows "store_inv (removeToken u t r)"
proof -
  have a: "u' \<noteq> [] \<and> ts \<noteq> [] \<and> distinct ts"
    if "tokensByUser (removeToken u t r) u' = Some ts" for u' ts
    using that assms store_inv_tokensOf_distinct[OF assms(1), of u]
    by (auto simp: remove_tokensByUser store_inv_def distinct_set_delete split: if_splits)
  have b: "userId m \<noteq> [] \<and> t' \<in> set (tokensOf (removeToken u t r) (userId m))"
    if "metaByToken (removeToken u t r) t' = Some m" for t' m
    using that assms
    by (auto simp: remove_metaByToken tokensOf_remove set_set_delete store_inv_def split: if_splits)
  show ?thesis unfolding store_inv_def using a b by blast
qed

lemma store_inv_cleanup_response: "store_inv r \<Longrightarrow> store_inv (cleanup_response toks x idx r)"
  by (auto simp: cleanup_response_def Let_def store_inv_remove split: option.splits)

lemma store_inv_cleanup: "store_inv r \<Longrightarrow> store_inv (cleanup toks xs idx r)"
  by (induction xs arbitrary: idx r) (auto simp: store_inv_cleanup_response)

lemma truthy_Some: "truthy x \<Longrightarrow> \<exists>s. x = Some s \<and> s \<noteq> []"
  by (auto simp: truthy_def split: option.splits)

lemma store_inv_handle: "store_inv r \<Longrightarrow> store_inv (store (handle q r))"
proof (cases q)
  case (Register uid tok plat now)
  assume "store_inv r"
  then show ?thesis using Register
    by (auto simp: devices_register_def store_inv_upsert dest!: truthy_Some)
next
  case (UpdateToken uid tok old plat now)
  assume "store_inv r"
  then show ?thesis using UpdateToken
    by (auto simp: devices_token_def Let_def store_inv_upsert store_inv_remove dest!: truthy_Some)
next
  case (Unregister uid tok)
  assume "store_inv r"
  then show ?thesis using Unregister
    by (auto simp: devices_unregister_def store_inv_remove)
next
  case (SendToUser uid dat andr prov)
  assume "store_inv r"
  then show ?thesis using SendToUser
    by (auto simp: notifications_send_def Let_def store_inv_cleanup split: option.splits sum.splits)
next
  case (SendToToken tok dat andr prov)
  assume "store_inv r"
  then show ?thesis using SendToToken
    by (auto simp: notifications_sendToToken_def Let_def split: sum.splits)
qed

lemma store_inv_run: "store_inv r \<Longrightarrow> store_inv (run qs r)"
  by (induction qs arbitrary: r) (auto simp: store_inv_handle)

lemma store_inv_reachable: "store_inv (run qs empty_registry)"
  by (simp add: store_inv_run store_inv_empty)

lemma tokensOf_empty: "tokensOf empty_registry u = []"
  by (simp add: empty_registry_def tokensOf_def)

lemma remove_absent_noop:
  assumes "store_inv r" "t \<notin> set (tokensOf r u)" "metadataOf r t = None"
  shows "removeToken u t r = r"
proof -
  have m: "metaByToken (removeToken u t r) = metaByToken r"
    using assms(3) by (auto simp: remove_metaByToken metadataOf_def)
  have "tokensByUser (removeToken u t r) = tokensByUser r"
  proof (cases "tokensByUser r u")
    case None
    then show ?thesis by (simp add: remove_tokensByUser)
  next
    case (Some ts)
    with assms(1) have "ts \<noteq> []" by (auto simp: store_inv_def)
    moreover from Some assms(2) have "set_delete ts t = ts"
      by (simp add: tokensOf_def set_delete_def)
    moreover from Some have "tokensOf r u = ts" by (simp add: tokensOf_def)
    ultimately show ?thesis using Some by (simp add: remove_tokensByUser fun_upd_idem)
  qed
  with m show ?thesis by simp
qed

lemma singleton_entry_removed:
  assumes "store_inv r" "set (tokensOf r u) = {t}"
  shows "tokensByUser (removeToken u t r) u = None"
proof (cases "tokensByUser r u")
  case None
  with assms(2) show ?thesis by (simp add: tokensOf_def)
next
  case (Some ts)
  with assms(1) have "u \<noteq> []" unfolding store_inv_def by blast
  moreover have "set (set_delete (tokensOf r u) t) = {}"
    by (simp add: set_set_delete assms(2))
  then have "set_delete (tokensOf r u) t = []" by simp
  ultimately show ?thesis using Some by (simp add: remove_tokensByUser)
qed

lemma cleanup_response_success: "success x \<Longrightarrow> cleanup_response toks x idx reg = reg"
  by (simp add: cleanup_response_def)

lemma cleanup_response_invalid:
  assumes "permanently_invalid x" "idx < length toks"
  shows "cleanup_response toks x idx reg =
           (case metaByToken reg (toks ! idx) of
              None \<Rightarrow> reg
            | Some meta \<Rightarrow> if userId meta \<noteq> [] then removeToken (userId meta) (toks ! idx) reg else reg)"
  using assms
  by (auto simp: cleanup_response_def permanently_invalid_def at_index_def Let_def split: option.splits)

lemma str_includes_sublist: "str_includes s sub \<longleftrightarrow> sublist sub s"
  by (induction s) (simp_all add: sublist_Cons_right)

section \<open>Payload normalisation, entry by entry\<close>

lemma fold_assign_property:
  "fold (\<lambda>kv out. assign_property out (fst kv) (string_value (snd kv))) kvs m k =
     (if k = ''__proto__'' then m k
      else (case map_of (rev kvs) k of None \<Rightarrow> m k | Some v \<Rightarrow> Some (string_value v)))"
proof (induction kvs arbitrary: m)
  case Nil
  then show ?case by simp
next
  case (Cons kv kvs)
  show ?case
    by (simp add: Cons.IH) (auto simp: assign_property_def map_add_def split: option.splits)
qed

lemma ensureStringData_lookup:
  "ensureStringData dat k =
     (if k = ''__proto__'' then None
      else map_option string_value (map_of (rev (object_entries (value_or dat (JObj [])))) k))"
  by (simp add: ensureStringData_def fold_assign_property split: option.splits)

lemma ensureStringData_entry:
  assumes "js_truthy d" "distinct (map fst (object_entries d))"
    and "(k, v) \<in> set (object_entries d)" "k \<noteq> ''__proto__''"
  shows "ensureStringData (Some d) k = Some (string_value v)"
proof -
  have "distinct (map fst (rev (object_entries d)))" using assms(2) by (simp add: rev_map[symmetric])
  moreover have "(k, v) \<in> set (rev (object_entries d))" using assms(3) by simp
  ultimately have "map_of (rev (object_entries d)) k = Some v" by (rule map_of_is_SomeI)
  then show ?thesis using assms(1,4) by (simp add: ensureStringData_lookup value_or_def)
qed

lemma string_value_string: "string_value (JStr s) = s"
  by (simp add: string_value_def)

lemma string_value_other: "\<forall>s. v \<noteq> JStr s \<Longrightarrow> string_value v = JSON_stringify v"
  by (cases v) (simp_all add: string_value_def)

lemma ensureStringData_chat_count:
  "ensureStringData (Some (JObj [(''type'', JStr ''chat''), (''count'', JNum (Abs_safe_int 3))])) =
     [''type'' \<mapsto> ''chat'', ''count'' \<mapsto> ''3'']"
  by (simp add: ensureStringData_def value_or_def assign_property_def string_value_def show_int_def
      show_nat.simps digit_char_def Abs_safe_int_inverse)

lemma send_normalises_payload:
  "u \<noteq> [] \<Longrightarrow> value_truthy dat \<Longrightarrow> tokensOf r u \<noteq> [] \<Longrightarrow>
     calls (notifications_send (Some u) dat andr prov r) =
       [SendEachForMulticast (tokensOf r u) (ensureStringData dat) (value_or andr high_priority)]"
  by (cases "tokensByUser r u")
     (simp_all add: notifications_send_def truthy_def tokensOf_def Let_def split: sum.splits)

lemma sendToToken_normalises_payload:
  "tok \<noteq> [] \<Longrightarrow> value_truthy dat \<Longrightarrow>
     calls (notifications_sendToToken (Some tok) dat andr send r) =
       [Send tok (ensureStringData dat) (value_or andr high_priority)]"
  by (simp add: notifications_sendToToken_def truthy_def Let_def split: sum.splits)

lemma JSON_stringify_nested:
  "JSON_stringify (JObj [(''a'', JNum (Abs_safe_int (- 12))), (''b'', JArr [JStr ''x'', JNull, JBool True])]) =
     [CHR ''{'', CHR 0x22, CHR ''a'', CHR 0x22, CHR '':'', CHR ''-'', CHR ''1'', CHR ''2'', CHR '','',
      CHR 0x22, CHR ''b'', CHR 0x22, CHR '':'', CHR ''['', CHR 0x22, CHR ''x'', CHR 0x22, CHR '','',
      CHR ''n'', CHR ''u'', CHR ''l'', CHR ''l'', CHR '','', CHR ''t'', CHR ''r'', CHR ''u'', CHR ''e'',
      CHR '']'', CHR ''}'']"
  by (simp add: json_quote_def escape_char_def show_int_def show_nat.simps digit_char_def
      Abs_safe_int_inverse)

section \<open>The two indexes and their agreement\<close>

lemma owned_inv_empty: "owned_inv own empty_registry"
  by (simp add: owned_inv_def empty_registry_def tokensOf_def)

lemma owned_inv_upsert:
  "owned_inv own r \<Longrightarrow> own t = u \<Longrightarrow> owned_inv own (upsertToken u t p now r)"
  unfolding owned_inv_def
  by (auto simp: tokensOf_upsert set_set_add upsert_metaByToken split: if_splits)

lemma owned_inv_remove:
  "owned_inv own r \<Longrightarrow> own t = u \<Longrightarrow> u \<noteq> [] \<Longrightarrow> owned_inv own (removeToken u t r)"
  unfolding owned_inv_def
  by (auto simp: tokensOf_remove set_set_delete remove_metaByToken split: if_splits)

lemma owned_inv_cleanup_response:
  assumes "owned_inv own r" "store_inv r"
  shows "owned_inv own (cleanup_response toks x idx r)"
proof -
  have "owned_inv own (removeToken (userId m) tok r)"
    if "metaByToken r tok = Some m" "userId m \<noteq> []" for tok m
  proof -
    from that assms(2) have "tok \<in> set (tokensOf r (userId m))" by (auto simp: store_inv_def)
    with assms(1) have "own tok = userId m" by (auto simp: owned_inv_def)
    with assms(1) that(2) show ?thesis by (simp add: owned_inv_remove)
  qed
  with assms(1) show ?thesis
    by (auto simp: cleanup_response_def Let_def split: option.splits)
qed

lemma owned_inv_cleanup:
  "owned_inv own r \<Longrightarrow> store_inv r \<Longrightarrow> owned_inv own (cleanup toks xs idx r)"
  by (induction xs arbitrary: idx r) (auto simp: owned_inv_cleanup_response store_inv_cleanup_response)

lemma owned_inv_handle:
  assumes "owned_inv own r" "store_inv r" "names_owner own q"
  shows "owned_inv own (store (handle q r))"
proof (cases q)
  case (Register uid tok plat now)
  then show ?thesis using assms
    by (auto simp: devices_register_def owned_inv_upsert dest!: truthy_Some)
next
  case (UpdateToken uid tok old plat now)
  then show ?thesis using assms
    by (cases old) (auto simp: devices_token_def Let_def owned_inv_upsert owned_inv_remove dest!: truthy_Some)
next
  case (Unregister uid tok)
  then show ?thesis using assms
    by (auto simp: devices_unregister_def owned_inv_remove dest!: truthy_Some)
next
  case (SendToUser uid dat andr prov)
  then show ?thesis using assms
    by (auto simp: notifications_send_def Let_def owned_inv_cleanup split: option.splits sum.splits)
next
  case (SendToToken tok dat andr prov)
  then show ?thesis using assms
    by (auto simp: notifications_sendToToken_def Let_def split: sum.splits)
qed

lemma owned_inv_run:
  "owned_inv own r \<Longrightarrow> store_inv r \<Longrightarrow> \<forall>q \<in> set qs. names_owner own q \<Longrightarrow> owned_inv own (run qs r)"
  by (induction qs arbitrary: r) (auto simp: owned_inv_handle store_inv_handle)

text \<open>
  Claim C1, as amended. Starting from the empty store, after every sequence of requests
  (register, update, unregister, send to a user with its clean-up, send to a token):
  every token with a metadata entry is a member of the Set of the user that entry names;
  and when every register, update and unregister request of the sequence names each token
  with one and the same user, every token in a user's Set has a metadata entry, which
  names that user.
\<close>

theorem metadata_within_membership:
  "(\<forall>t m. metadataOf (run qs empty_registry) t = Some m \<longrightarrow>
       t \<in> set (tokensOf (run qs empty_registry) (userId m))) \<and>
   ((\<forall>q \<in> set qs. names_owner own q) \<longrightarrow>
      (\<forall>u t. t \<in> set (tokensOf (run qs empty_registry) u) \<longrightarrow>
         (\<exists>m. metadataOf (run qs empty_registry) t = Some m \<and> userId m = u)))"
proof -
  have inv: "store_inv (run qs empty_registry)" by (rule store_inv_reachable)
  have a: "\<forall>t m. metadataOf (run qs empty_registry) t = Some m \<longrightarrow>
       t \<in> set (tokensOf (run qs empty_registry) (userId m))"
    using inv by (simp add: store_inv_def metadataOf_def)
  have b: "\<forall>u t. t \<in> set (tokensOf (run qs empty_registry) u) \<longrightarrow>
         (\<exists>m. metadataOf (run qs empty_registry) t = Some m \<and> userId m = u)"
    if "\<forall>q \<in> set qs. names_owner own q"
    using owned_inv_run[OF owned_inv_empty store_inv_empty that]
    by (simp add: owned_inv_def metadataOf_def)
  from a b show ?thesis by blast
qed

text \<open>
  Claim C1 as stated fails: after alice registers a token and bob unregisters the same
  token, the token is still in alice's Set and has no metadata entry.
\<close>

theorem lock_step_counterexample:
  "\<not> lock_step (run [Register (Some ''alice'') (Some ''tok1'') None ''2024-01-01T00:00:00.000Z'',
                     Unregister (Some ''bob'') (Some ''tok1'')] empty_registry)"
proof
  assume "lock_step (run [Register (Some ''alice'') (Some ''tok1'') None ''2024-01-01T00:00:00.000Z'',
                     Unregister (Some ''bob'') (Some ''tok1'')] empty_registry)"
  then have "''tok1'' \<in> set (tokensOf (run [Register (Some ''alice'') (Some ''tok1'') None ''2024-01-01T00:00:00.000Z'',
                     Unregister (Some ''bob'') (Some ''tok1'')] empty_registry) ''alice'') \<longrightarrow>
     metadataOf (run [Register (Some ''alice'') (Some ''tok1'') None ''2024-01-01T00:00:00.000Z'',
                     Unregister (Some ''bob'') (Some ''tok1'')] empty_registry) ''tok1'' \<noteq> None"
    unfolding lock_step_def by blast
  then show False
    by (simp add: devices_register_def devices_unregister_def truthy_def tokensOf_remove tokensOf_upsert
        set_set_add metadataOf_def remove_metaByToken)
qed

text \<open>
  The amended claim C1 on a sequence in which alice alone names her tokens.
\<close>

theorem metadata_within_membership_witness:
  "list_all (names_owner (\<lambda>t. ''alice''))
     [Register (Some ''alice'') (Some ''tok1'') None ''now1'',
      Register (Some ''alice'') (Some ''tok2'') (Some ''ios'') ''now2'',
      Unregister (Some ''alice'') (Some ''tok1'')] \<and>
   tokensOf (run [Register (Some ''alice'') (Some ''tok1'') None ''now1'',
               Register (Some ''alice'') (Some ''tok2'') (Some ''ios'') ''now2'',
               Unregister (Some ''alice'') (Some ''tok1'')] empty_registry) ''alice'' = [''tok2''] \<and>
   (\<exists>m. metadataOf (run [Register (Some ''alice'') (Some ''tok1'') None ''now1'',
               Register (Some ''alice'') (Some ''tok2'') (Some ''ios'') ''now2'',
               Unregister (Some ''alice'') (Some ''tok1'')] empty_registry) ''tok2'' = Some m \<and> userId m = ''alice'')"
proof -
  let ?qs = "[Register (Some ''alice'') (Some ''tok1'') None ''now1'',
               Register (Some ''alice'') (Some ''tok2'') (Some ''ios'') ''now2'',
               Unregister (Some ''alice'') (Some ''tok1'')]"
  have h: "\<forall>q \<in> set ?qs. names_owner (\<lambda>t. ''alice'') q" by simp
  have t: "tokensOf (run ?qs empty_registry) ''alice'' = [''tok2'']"
    by (simp add: devices_register_def devices_unregister_def truthy_def tokensOf_remove tokensOf_upsert
        set_add_def set_delete_def tokensOf_empty)
  from metadata_within_membership[of ?qs "\<lambda>t. ''alice''"] h
  have "\<forall>u t. t \<in> set (tokensOf (run ?qs empty_registry) u) \<longrightarrow>
         (\<exists>m. metadataOf (run ?qs empty_registry) t = Some m \<and> userId m = u)" by blast
  then have "''tok2'' \<in> set (tokensOf (run ?qs empty_registry) ''alice'') \<longrightarrow>
    (\<exists>m. metadataOf (run ?qs empty_registry) ''tok2'' = Some m \<and> userId m = ''alice'')" by blast
  with t show ?thesis by simp
qed

section \<open>Registering a token under a second user\<close>

text \<open>
  Claim C2. For users \<open>u\<close> and \<open>u2\<close> that differ, a token \<open>t\<close> and a platform \<open>p\<close>,
  from any store: after \<open>upsertToken u t p\<close> and then \<open>upsertToken u2 t p\<close> the metadata of
  \<open>t\<close> names \<open>u2\<close> as its user, and \<open>t\<close> is still in the Set of \<open>u\<close>.
\<close>

theorem upsert_transfers_ownership:
  "u \<noteq> u2 \<Longrightarrow>
     map_option userId (metadataOf (upsertToken u2 t p now2 (upsertToken u t p now1 r)) t) = Some u2 \<and>
     t \<in> set (tokensOf (upsertToken u2 t p now2 (upsertToken u t p now1 r)) u)"
  by (simp add: metadataOf_def upsert_metaByToken tokensOf_upsert set_set_add)

text \<open>
  Claim C2 on alice and bob registering the same token in the empty store.
\<close>

theorem upsert_transfers_ownership_witness:
  "map_option userId (metadataOf (upsertToken ''bob'' ''tok1'' None ''now2''
      (upsertToken ''alice'' ''tok1'' None ''now1'' empty_registry)) ''tok1'') = Some ''bob'' \<and>
   tokensOf (upsertToken ''bob'' ''tok1'' None ''now2''
      (upsertToken ''alice'' ''tok1'' None ''now1'' empty_registry)) ''alice'' = [''tok1'']"
proof -
  have ne: "''alice'' \<noteq> ''bob''" by simp
  have "tokensOf (upsertToken ''bob'' ''tok1'' None ''now2''
      (upsertToken ''alice'' ''tok1'' None ''now1'' empty_registry)) ''alice'' = [''tok1'']"
    by (simp add: tokensOf_upsert tokensOf_empty set_add_def)
  with upsert_transfers_ownership[OF ne, of "''tok1''" None "''now2''" "''now1''" empty_registry]
  show ?thesis by simp
qed


section \<open>Clean-up after a send to a user\<close>

text \<open>
  Claim C3, as amended. A user \<open>u\<close> whose Set is \<open>[t1, t2]\<close> is sent a payload, and the
  provider answers with a failure for \<open>t1\<close> whose code marks the token as not valid any more
  and a success for \<open>t2\<close>, counting its failures. The route replies with the provider's
  success count and a failure count of 1, and \<open>t2\<close> stays in the Set of \<open>u\<close> with its
  metadata as it was. When \<open>t1\<close> has metadata, the clean-up is \<open>removeToken\<close> for the user
  that metadata names: the metadata of \<open>t1\<close> is deleted and \<open>t1\<close> leaves the Set of that
  user; so \<open>t1\<close> leaves the Set of \<open>u\<close>, which becomes \<open>[t2]\<close>, when the metadata names
  \<open>u\<close>, and the Set of \<open>u\<close> stays \<open>[t1, t2]\<close> when it names another user. When \<open>t1\<close> has
  no metadata (or metadata with an empty user id, which no reached store holds), the
  clean-up is skipped, the store is as it was and the reply is the same.
\<close>

theorem send_cleans_invalid_token:
  assumes "u \<noteq> []" "value_truthy dat"
    and "tokensByUser r u = Some [t1, t2]" "t1 \<noteq> t2"
    and "prov [t1, t2] (ensureStringData dat) (value_or andr high_priority) = Inr resp"
    and "responses resp = [x1, x2]" "permanently_invalid x1" "success x2"
    and "failureCount resp = length (filter (\<lambda>x. \<not> success x) (responses resp))"
  shows "reply (notifications_send (Some u) dat andr prov r) = Status200_counts (successCount resp) 1 \<and>
         t2 \<in> set (tokensOf (store (notifications_send (Some u) dat andr prov r)) u) \<and>
         metadataOf (store (notifications_send (Some u) dat andr prov r)) t2 = metadataOf r t2 \<and>
         (\<forall>m. metadataOf r t1 = Some m \<and> userId m \<noteq> [] \<longrightarrow>
            store (notifications_send (Some u) dat andr prov r) = removeToken (userId m) t1 r \<and>
            metadataOf (store (notifications_send (Some u) dat andr prov r)) t1 = None \<and>
            t1 \<notin> set (tokensOf (store (notifications_send (Some u) dat andr prov r)) (userId m)) \<and>
            tokensOf (store (notifications_send (Some u) dat andr prov r)) u =
              (if userId m = u then [t2] else [t1, t2])) \<and>
         (\<forall>m. metadataOf r t1 = Some m \<and> userId m = [] \<longrightarrow>
            store (notifications_send (Some u) dat andr prov r) = r) \<and>
         (metadataOf r t1 = None \<longrightarrow> store (notifications_send (Some u) dat andr prov r) = r)"
proof -
  let ?out = "notifications_send (Some u) dat andr prov r"
  have st: "store ?out = cleanup_response [t1, t2] x1 0 r"
    using assms(1-6,8)
    by (simp add: notifications_send_def truthy_def Let_def cleanup_response_success)
  have c1: "cleanup_response [t1, t2] x1 0 r =
          (case metaByToken r t1 of
              None \<Rightarrow> r
            | Some meta \<Rightarrow> if userId meta \<noteq> [] then removeToken (userId meta) t1 r else r)"
    by (subst cleanup_response_invalid[OF assms(7)]) (simp_all split: option.splits)
  have nf: "\<not> success x1" using assms(7) by (simp add: permanently_invalid_def)
  have rp: "reply ?out = Status200_counts (successCount resp) 1"
    using assms(1-6,8,9) nf by (simp add: notifications_send_def truthy_def Let_def)
  have tu: "tokensOf r u = [t1, t2]" using assms(3) by (simp add: tokensOf_def)
  have cases: "store ?out = r \<or> (\<exists>v. store ?out = removeToken v t1 r)"
    by (cases "metaByToken r t1") (auto simp: st c1)
  have keep: "t2 \<in> set (tokensOf (removeToken v t1 r) u) \<and>
              metadataOf (removeToken v t1 r) t2 = metadataOf r t2" for v
    using assms(4) tu by (auto simp: tokensOf_remove set_delete_def metadataOf_def remove_metaByToken)
  have t2: "t2 \<in> set (tokensOf (store ?out) u) \<and> metadataOf (store ?out) t2 = metadataOf r t2"
    using cases
  proof
    assume "store ?out = r"
    with tu show ?thesis by simp
  next
    assume "\<exists>v. store ?out = removeToken v t1 r"
    then obtain v where "store ?out = removeToken v t1 r" ..
    with keep[of v] show ?thesis by simp
  qed
  have a: "store ?out = removeToken (userId m) t1 r \<and>
           metadataOf (store ?out) t1 = None \<and>
           t1 \<notin> set (tokensOf (store ?out) (userId m)) \<and>
           tokensOf (store ?out) u = (if userId m = u then [t2] else [t1, t2])"
    if "metadataOf r t1 = Some m \<and> userId m \<noteq> []" for m
  proof -
    from that have s: "store ?out = removeToken (userId m) t1 r"
      by (simp add: st c1 metadataOf_def)
    have m: "metadataOf (removeToken (userId m) t1 r) t1 = None"
      by (simp add: metadataOf_def remove_metaByToken)
    have o: "t1 \<notin> set (tokensOf (removeToken (userId m) t1 r) (userId m))"
      using that by (simp add: tokensOf_remove set_set_delete)
    have w: "tokensOf (removeToken (userId m) t1 r) u = (if userId m = u then [t2] else [t1, t2])"
      using that assms(4) tu by (simp add: tokensOf_remove set_delete_def)
    show ?thesis unfolding s by (intro conjI refl m o w)
  qed
  have b: "store ?out = r" if "metadataOf r t1 = None"
    using that by (simp add: st c1 metadataOf_def)
  have e: "store ?out = r" if "metadataOf r t1 = Some m \<and> userId m = []" for m
    using that by (simp add: st c1 metadataOf_def)
  show ?thesis
  proof (intro conjI allI impI)
    show "reply ?out = Status200_counts (successCount resp) 1" by (rule rp)
    show "t2 \<in> set (tokensOf (store ?out) u)" using t2 by simp
    show "metadataOf (store ?out) t2 = metadataOf r t2" using t2 by simp
    show "store ?out = removeToken (userId m) t1 r"
      if "metadataOf r t1 = Some m \<and> userId m \<noteq> []" for m using a[OF that] by blast
    show "metadataOf (store ?out) t1 = None"
      if "metadataOf r t1 = Some m \<and> userId m \<noteq> []" for m using a[OF that] by blast
    show "t1 \<notin> set (tokensOf (store ?out) (userId m))"
      if "metadataOf r t1 = Some m \<and> userId m \<noteq> []" for m using a[OF that] by blast
    show "tokensOf (store ?out) u = (if userId m = u then [t2] else [t1, t2])"
      if "metadataOf r t1 = Some m \<and> userId m \<noteq> []" for m using a[OF that] by blast
    show "store ?out = r" if "metadataOf r t1 = Some m \<and> userId m = []" for m
      using that by (rule e)
    show "store ?out = r" if "metadataOf r t1 = None" using that by (rule b)
  qed
qed

text \<open>
  Claim C3 as stated fails. Alice registers two tokens and bob then registers the first of
  them, so its metadata names bob. A send to alice in which that token is reported as not
  registered any more replies with a failure count of 1 and deletes the token's metadata,
  and the token is still in alice's Set.
\<close>

theorem send_cleanup_counterexample:
  "tokensByUser (run [Register (Some ''alice'') (Some ''tok1'') None ''now1'',
                      Register (Some ''alice'') (Some ''tok2'') None ''now2'',
                      Register (Some ''bob'') (Some ''tok1'') None ''now3''] empty_registry) ''alice''
     = Some [''tok1'', ''tok2''] \<and>
   map_option userId (metadataOf (run [Register (Some ''alice'') (Some ''tok1'') None ''now1'',
                      Register (Some ''alice'') (Some ''tok2'') None ''now2'',
                      Register (Some ''bob'') (Some ''tok1'') None ''now3''] empty_registry) ''tok1'')
     = Some ''bob'' \<and>
   reply (notifications_send (Some ''alice'') (Some (JObj [(''type'', JStr ''chat'')])) None
      (\<lambda>toks d a. Inr \<lparr>responses =
          [\<lparr>success = False, messageId = None,
            error = Some \<lparr>code = ''messaging/registration-token-not-registered'', message = ''gone''\<rparr>\<rparr>,
           \<lparr>success = True, messageId = Some ''m2'', error = None\<rparr>],
          successCount = 1, failureCount = 1\<rparr>)
      (run [Register (Some ''alice'') (Some ''tok1'') None ''now1'',
            Register (Some ''alice'') (Some ''tok2'') None ''now2'',
            Register (Some ''bob'') (Some ''tok1'') None ''now3''] empty_registry))
     = Status200_counts 1 1 \<and>
   ''tok1'' \<in> set (tokensOf (store (notifications_send (Some ''alice'')
      (Some (JObj [(''type'', JStr ''chat'')])) None
      (\<lambda>toks d a. Inr \<lparr>responses =
          [\<lparr>success = False, messageId = None,
            error = Some \<lparr>code = ''messaging/registration-token-not-registered'', message = ''gone''\<rparr>\<rparr>,
           \<lparr>success = True, messageId = Some ''m2'', error = None\<rparr>],
          successCount = 1, failureCount = 1\<rparr>)
      (run [Register (Some ''alice'') (Some ''tok1'') None ''now1'',
            Register (Some ''alice'') (Some ''tok2'') None ''now2'',
            Register (Some ''bob'') (Some ''tok1'') None ''now3''] empty_registry))) ''alice'')"
proof -
  define r where "r = run [Register (Some ''alice'') (Some ''tok1'') None ''now1'',
                      Register (Some ''alice'') (Some ''tok2'') None ''now2'',
                      Register (Some ''bob'') (Some ''tok1'') None ''now3''] empty_registry"
  let ?x1 = "\<lparr>success = False, messageId = None,
            error = Some \<lparr>code = ''messaging/registration-token-not-registered'', message = ''gone''\<rparr>\<rparr>"
  let ?x2 = "\<lparr>success = True, messageId = Some ''m2'', error = None\<rparr>"
  let ?prov = "\<lambda>toks d a. Inr \<lparr>responses = [?x1, ?x2], successCount = 1, failureCount = 1\<rparr>"
  let ?dat = "Some (JObj [(''type'', JStr ''chat'')])"
  let ?out = "notifications_send (Some ''alice'') ?dat None ?prov r"
  have tb: "tokensByUser r ''alice'' = Some [''tok1'', ''tok2'']"
    unfolding r_def
    by (simp add: devices_register_def truthy_def upsert_tokensByUser tokensOf_upsert tokensOf_empty
        set_add_def)
  have mb: "metaByToken r ''tok1'' = Some \<lparr>userId = ''bob'', platform = ''android'', updatedAt = ''now3''\<rparr>"
    unfolding r_def
    by (simp add: devices_register_def truthy_def upsert_metaByToken or_default_def)
  have cl: "cleanup [''tok1'', ''tok2''] [?x1, ?x2] 0 r = removeToken ''bob'' ''tok1'' r"
    using mb by (simp add: cleanup_response_def at_index_def)
  have rp: "reply ?out = Status200_counts 1 1"
    using tb by (simp add: notifications_send_def truthy_def value_truthy_def Let_def)
  have st: "store ?out = removeToken ''bob'' ''tok1'' r"
    using tb cl by (simp add: notifications_send_def truthy_def value_truthy_def Let_def)
  have ta: "tokensOf r ''alice'' = [''tok1'', ''tok2'']" using tb by (simp add: tokensOf_def)
  have keep: "''tok1'' \<in> set (tokensOf (store ?out) ''alice'')"
    unfolding st by (simp add: tokensOf_remove ta)
  have mo: "map_option userId (metadataOf r ''tok1'') = Some ''bob''"
    using mb by (simp add: metadataOf_def)
  have "tokensByUser r ''alice'' = Some [''tok1'', ''tok2''] \<and>
        map_option userId (metadataOf r ''tok1'') = Some ''bob'' \<and>
        reply ?out = Status200_counts 1 1 \<and>
        ''tok1'' \<in> set (tokensOf (store ?out) ''alice'')"
    by (intro conjI tb mo rp keep)
  then show ?thesis unfolding r_def .
qed

text \<open>
  The amended claim C3 on alice with two registered tokens, on the same user after bob
  unregistered the first token (no metadata left for it), and on the same user after bob
  registered the first token (its metadata names bob).
\<close>

theorem send_cleans_invalid_token_witness:
  "reply (notifications_send (Some ''alice'') (Some (JObj [(''type'', JStr ''chat'')])) None
      (\<lambda>toks d a. Inr \<lparr>responses =
          [\<lparr>success = False, messageId = None,
            error = Some \<lparr>code = ''messaging/registration-token-not-registered'', message = ''gone''\<rparr>\<rparr>,
           \<lparr>success = True, messageId = Some ''m2'', error = None\<rparr>],
          successCount = 1, failureCount = 1\<rparr>)
      (run [Register (Some ''alice'') (Some ''tok1'') None ''now1'',
            Register (Some ''alice'') (Some ''tok2'') None ''now2''] empty_registry))
    = Status200_counts 1 1 \<and>
   tokensOf (store (notifications_send (Some ''alice'') (Some (JObj [(''type'', JStr ''chat'')])) None
      (\<lambda>toks d a. Inr \<lparr>responses =
          [\<lparr>success = False, messageId = None,
            error = Some \<lparr>code = ''messaging/registration-token-not-registered'', message = ''gone''\<rparr>\<rparr>,
           \<lparr>success = True, messageId = Some ''m2'', error = None\<rparr>],
          successCount = 1, failureCount = 1\<rparr>)
      (run [Register (Some ''alice'') (Some ''tok1'') None ''now1'',
            Register (Some ''alice'') (Some ''tok2'') None ''now2''] empty_registry)))
      ''alice'' = [''tok2''] \<and>
   metadataOf (store (notifications_send (Some ''alice'') (Some (JObj [(''type'', JStr ''chat'')])) None
      (\<lambda>toks d a. Inr \<lparr>responses =
          [\<lparr>success = False, messageId = None,
            error = Some \<lparr>code = ''messaging/registration-token-not-registered'', message = ''gone''\<rparr>\<rparr>,
           \<lparr>success = True, messageId = Some ''m2'', error = None\<rparr>],
          successCount = 1, failureCount = 1\<rparr>)
      (run [Register (Some ''alice'') (Some ''tok1'') None ''now1'',
            Register (Some ''alice'') (Some ''tok2'') None ''now2''] empty_registry)))
      ''tok1'' = None \<and>
   store (notifications_send (Some ''alice'') (Some (JObj [(''type'', JStr ''chat'')])) None
      (\<lambda>toks d a. Inr \<lparr>responses =
          [\<lparr>success = False, messageId = None,
            error = Some \<lparr>code = ''messaging/invalid-argument'', message = ''bad''\<rparr>\<rparr>,
           \<lparr>success = True, messageId = Some ''m2'', error = None\<rparr>],
          successCount = 1, failureCount = 1\<rparr>)
      (run [Register (Some ''alice'') (Some ''tok1'') None ''now1'',
            Register (Some ''alice'') (Some ''tok2'') None ''now2'',
            Unregister (Some ''bob'') (Some ''tok1'')] empty_registry))
    = run [Register (Some ''alice'') (Some ''tok1'') None ''now1'',
            Register (Some ''alice'') (Some ''tok2'') None ''now2'',
            Unregister (Some ''bob'') (Some ''tok1'')] empty_registry \<and>
   tokensOf (store (notifications_send (Some ''alice'') (Some (JObj [(''type'', JStr ''chat'')])) None
      (\<lambda>toks d a. Inr \<lparr>responses =
          [\<lparr>success = False, messageId = None,
            error = Some \<lparr>code = ''messaging/registration-token-not-registered'', message = ''gone''\<rparr>\<rparr>,
           \<lparr>success = True, messageId = Some ''m2'', error = None\<rparr>],
          successCount = 1, failureCount = 1\<rparr>)
      (run [Register (Some ''alice'') (Some ''tok1'') None ''now1'',
            Register (Some ''alice'') (Some ''tok2'') None ''now2'',
            Register (Some ''bob'') (Some ''tok1'') None ''now3''] empty_registry)))
      ''alice'' = [''tok1'', ''tok2'']"
proof -
  define r where "r = run [Register (Some ''alice'') (Some ''tok1'') None ''now1'',
            Register (Some ''alice'') (Some ''tok2'') None ''now2''] empty_registry"
  define r' where "r' = run [Register (Some ''alice'') (Some ''tok1'') None ''now1'',
            Register (Some ''alice'') (Some ''tok2'') None ''now2'',
            Unregister (Some ''bob'') (Some ''tok1'')] empty_registry"
  define r'' where "r'' = run [Register (Some ''alice'') (Some ''tok1'') None ''now1'',
            Register (Some ''alice'') (Some ''tok2'') None ''now2'',
            Register (Some ''bob'') (Some ''tok1'') None ''now3''] empty_registry"
  let ?x1 = "\<lparr>success = False, messageId = None,
            error = Some \<lparr>code = ''messaging/registration-token-not-registered'', message = ''gone''\<rparr>\<rparr>"
  let ?y1 = "\<lparr>success = False, messageId = None,
            error = Some \<lparr>code = ''messaging/invalid-argument'', message = ''bad''\<rparr>\<rparr>"
  let ?x2 = "\<lparr>success = True, messageId = Some ''m2'', error = None\<rparr>"
  let ?resp = "\<lparr>responses = [?x1, ?x2], successCount = 1, failureCount = 1\<rparr>"
  let ?resp' = "\<lparr>responses = [?y1, ?x2], successCount = 1, failureCount = 1\<rparr>"
  let ?prov = "\<lambda>toks d a. Inr ?resp :: string + batch_response"
  let ?prov' = "\<lambda>toks d a. Inr ?resp' :: string + batch_response"
  let ?dat = "Some (JObj [(''type'', JStr ''chat'')])"
  let ?ma = "\<lparr>userId = ''alice'', platform = ''android'', updatedAt = ''now1''\<rparr>"
  let ?mb = "\<lparr>userId = ''bob'', platform = ''android'', updatedAt = ''now3''\<rparr>"
  have h1: "''alice'' \<noteq> []" by simp
  have h2: "value_truthy ?dat" by (simp add: value_truthy_def)
  have h3: "tokensByUser r ''alice'' = Some [''tok1'', ''tok2'']"
    unfolding r_def
    by (simp add: devices_register_def truthy_def upsert_tokensByUser tokensOf_upsert tokensOf_empty
        set_add_def)
  have h3': "tokensByUser r' ''alice'' = Some [''tok1'', ''tok2'']"
    unfolding r'_def
    by (simp add: devices_register_def devices_unregister_def truthy_def remove_tokensByUser
        upsert_tokensByUser tokensOf_upsert tokensOf_empty set_add_def)
  have h3'': "tokensByUser r'' ''alice'' = Some [''tok1'', ''tok2'']"
    unfolding r''_def
    by (simp add: devices_register_def truthy_def upsert_tokensByUser tokensOf_upsert tokensOf_empty
        set_add_def)
  have h4: "''tok1'' \<noteq> ''tok2''" by simp
  have h5: "?prov [''tok1'', ''tok2''] (ensureStringData ?dat) (value_or None high_priority) = Inr ?resp"
    by simp
  have h5': "?prov' [''tok1'', ''tok2''] (ensureStringData ?dat) (value_or None high_priority) = Inr ?resp'"
    by simp
  have h6: "responses ?resp = [?x1, ?x2]" by simp
  have h6': "responses ?resp' = [?y1, ?x2]" by simp
  have h7: "permanently_invalid ?x1" by (simp add: permanently_invalid_def)
  have h7': "permanently_invalid ?y1" by (simp add: permanently_invalid_def)
  have h8: "success ?x2" by simp
  have h9: "failureCount ?resp = length (filter (\<lambda>x. \<not> success x) (responses ?resp))" by simp
  have h9': "failureCount ?resp' = length (filter (\<lambda>x. \<not> success x) (responses ?resp'))" by simp
  have m: "metadataOf r ''tok1'' = Some ?ma \<and> userId ?ma \<noteq> []"
    unfolding r_def
    by (simp add: devices_register_def truthy_def metadataOf_def upsert_metaByToken or_default_def)
  have m': "metadataOf r' ''tok1'' = None"
    unfolding r'_def
    by (simp add: devices_register_def devices_unregister_def truthy_def metadataOf_def remove_metaByToken)
  have m'': "metadataOf r'' ''tok1'' = Some ?mb \<and> userId ?mb \<noteq> []"
    unfolding r''_def
    by (simp add: devices_register_def truthy_def metadataOf_def upsert_metaByToken or_default_def)
  note T = send_cleans_invalid_token[OF h1 h2 h3 h4 h5 h6 h7 h8 h9]
  note T' = send_cleans_invalid_token[OF h1 h2 h3' h4 h5' h6' h7' h8 h9']
  note T'' = send_cleans_invalid_token[OF h1 h2 h3'' h4 h5 h6 h7 h8 h9]
  from T have "reply (notifications_send (Some ''alice'') ?dat None ?prov r) =
      Status200_counts (successCount ?resp) 1" by (rule conjunct1)
  then have g1: "reply (notifications_send (Some ''alice'') ?dat None ?prov r) = Status200_counts 1 1"
    by simp
  from T m have "tokensOf (store (notifications_send (Some ''alice'') ?dat None ?prov r)) ''alice'' =
      (if userId ?ma = ''alice'' then [''tok2''] else [''tok1'', ''tok2''])" by blast
  then have g2: "tokensOf (store (notifications_send (Some ''alice'') ?dat None ?prov r)) ''alice'' = [''tok2'']"
    by simp
  from T m have g3: "metadataOf (store (notifications_send (Some ''alice'') ?dat None ?prov r)) ''tok1'' = None"
    by blast
  from T' m' have g4: "store (notifications_send (Some ''alice'') ?dat None ?prov' r') = r'" by blast
  from T'' m'' have "tokensOf (store (notifications_send (Some ''alice'') ?dat None ?prov r'')) ''alice'' =
      (if userId ?mb = ''alice'' then [''tok2''] else [''tok1'', ''tok2''])" by blast
  then have g5: "tokensOf (store (notifications_send (Some ''alice'') ?dat None ?prov r'')) ''alice'' =
      [''tok1'', ''tok2'']"
    by simp
  have "reply (notifications_send (Some ''alice'') ?dat None ?prov r) = Status200_counts 1 1 \<and>
        tokensOf (store (notifications_send (Some ''alice'') ?dat None ?prov r)) ''alice'' = [''tok2''] \<and>
        metadataOf (store (notifications_send (Some ''alice'') ?dat None ?prov r)) ''tok1'' = None \<and>
        store (notifications_send (Some ''alice'') ?dat None ?prov' r') = r' \<and>
        tokensOf (store (notifications_send (Some ''alice'') ?dat None ?prov r'')) ''alice'' =
          [''tok1'', ''tok2'']"
    by (intro conjI g1 g2 g3 g4 g5)
  then show ?thesis unfolding r_def r'_def r''_def .
qed

section \<open>Sending to a user without tokens\<close>

text \<open>
  Claim C4. For a request with a user id and a payload, when the user has no entry or an
  empty Set, the send route replies 404 "No tokens for this user", calls the provider not
  at all and leaves the store as it was.
\<close>

theorem send_without_tokens:
  assumes "u \<noteq> []" "value_truthy dat" "tokensOf r u = []"
  shows "notifications_send (Some u) dat andr prov r =
           \<lparr>reply = Status404 ''No tokens for this user'', store = r, calls = []\<rparr>"
  using assms
  by (cases "tokensByUser r u") (simp_all add: notifications_send_def truthy_def tokensOf_def)

text \<open>
  Claim C4 on an unknown user and the empty store.
\<close>

theorem send_without_tokens_witness:
  "notifications_send (Some ''unknown_user'') (Some (JObj [(''type'', JStr ''chat'')])) None
      (\<lambda>toks d a. Inr \<lparr>responses = [], successCount = 0, failureCount = 0\<rparr>) empty_registry =
     \<lparr>reply = Status404 ''No tokens for this user'', store = empty_registry, calls = []\<rparr>"
proof -
  have a: "''unknown_user'' \<noteq> []" by simp
  have b: "value_truthy (Some (JObj [(''type'', JStr ''chat'')]))" by (simp add: value_truthy_def)
  have c: "tokensOf empty_registry ''unknown_user'' = []" by (rule tokensOf_empty)
  show ?thesis by (rule send_without_tokens[OF a b c])
qed


section \<open>A payload key that the normalisation loses\<close>

text \<open>
  Claim C5 says that every value of every payload is carried over as a string. The payload
  \<^verbatim>\<open>{"type": "chat", "__proto__": "x"}\<close> is normalised to \<^verbatim>\<open>{"type": "chat"}\<close>: the
  string under the key \<^verbatim>\<open>__proto__\<close> is not passed through, it is lost.
\<close>

theorem ensureStringData_drops_proto_key:
  "ensureStringData (Some (JObj [(''type'', JStr ''chat''), (''__proto__'', JStr ''x'')])) =
     [''type'' \<mapsto> ''chat'']"
  by (simp add: ensureStringData_def value_or_def assign_property_def string_value_def)


section \<open>Registering twice\<close>

text \<open>
  Claim C6. From any store, a second \<open>upsertToken\<close> with the same user, token and platform
  leaves the Set of every user (and the whole user index) as the first call left it, and
  the metadata of every token as the first call left it, except that the metadata of the
  token carries the time of the second call.
\<close>

theorem upsert_idempotent:
  "tokensOf (upsertToken u t p now2 (upsertToken u t p now1 r)) u' =
     tokensOf (upsertToken u t p now1 r) u' \<and>
   tokensByUser (upsertToken u t p now2 (upsertToken u t p now1 r)) =
     tokensByUser (upsertToken u t p now1 r) \<and>
   metadataOf (upsertToken u t p now2 (upsertToken u t p now1 r)) t' =
     (if t' = t then map_option (\<lambda>m. m\<lparr>updatedAt := now2\<rparr>) (metadataOf (upsertToken u t p now1 r) t')
      else metadataOf (upsertToken u t p now1 r) t')"
  by (simp add: tokensOf_upsert set_add_idem metadataOf_def upsert_metaByToken upsert_tokensByUser)


section \<open>Removing a token\<close>

text \<open>
  Claim C7. For a non-empty user id \<open>u\<close>, from any store: after \<open>upsertToken u t p\<close> and
  then \<open>removeToken u t\<close> the token is not in the Set of \<open>u\<close> and has no metadata.
  \<open>removeToken u' t\<close> deletes the metadata of \<open>t\<close> for every user id \<open>u'\<close>, whoever the
  metadata names. In a store reached from the empty one, \<open>removeToken u t\<close> changes nothing
  when \<open>t\<close> is neither in the Set of \<open>u\<close> nor has metadata.
\<close>

theorem remove_after_upsert:
  "(u \<noteq> [] \<longrightarrow>
      t \<notin> set (tokensOf (removeToken u t (upsertToken u t p now r)) u) \<and>
      metadataOf (removeToken u t (upsertToken u t p now r)) t = None) \<and>
   metadataOf (removeToken u' t r) t = None \<and>
   (t \<notin> set (tokensOf (run qs empty_registry) u) \<and> metadataOf (run qs empty_registry) t = None \<longrightarrow>
      removeToken u t (run qs empty_registry) = run qs empty_registry)"
  using remove_absent_noop[OF store_inv_reachable, of t qs u]
  by (simp add: tokensOf_remove set_set_delete metadataOf_def remove_metaByToken)

text \<open>
  Claim C7 on alice's token, removed by alice, its metadata removed by bob, and an absent
  token removed from a store that holds another one.
\<close>

theorem remove_after_upsert_witness:
  "tokensOf (removeToken ''alice'' ''tok1''
      (upsertToken ''alice'' ''tok1'' None ''now2'' (upsertToken ''alice'' ''tok1'' None ''now1'' empty_registry)))
      ''alice'' = [] \<and>
   metadataOf (removeToken ''alice'' ''tok1''
      (upsertToken ''alice'' ''tok1'' None ''now2'' (upsertToken ''alice'' ''tok1'' None ''now1'' empty_registry)))
      ''tok1'' = None \<and>
   metadataOf (removeToken ''bob'' ''tok1'' (upsertToken ''alice'' ''tok1'' None ''now1'' empty_registry))
      ''tok1'' = None \<and>
   removeToken ''alice'' ''tok1'' (run [Register (Some ''alice'') (Some ''tok2'') None ''now1''] empty_registry) =
     run [Register (Some ''alice'') (Some ''tok2'') None ''now1''] empty_registry"
proof -
  let ?r = "upsertToken ''alice'' ''tok1'' None ''now1'' empty_registry"
  let ?qs = "[Register (Some ''alice'') (Some ''tok2'') None ''now1'']"
  have h1: "''alice'' \<noteq> []" by simp
  have h2: "''tok1'' \<notin> set (tokensOf (run ?qs empty_registry) ''alice'')"
    by (simp add: devices_register_def truthy_def tokensOf_upsert tokensOf_empty set_add_def)
  have h3: "metadataOf (run ?qs empty_registry) ''tok1'' = None"
    by (simp add: devices_register_def truthy_def metadataOf_def upsert_metaByToken empty_registry_def)
  have t: "tokensOf (removeToken ''alice'' ''tok1'' (upsertToken ''alice'' ''tok1'' None ''now2'' ?r)) ''alice'' = []"
    by (simp add: tokensOf_remove tokensOf_upsert tokensOf_empty set_add_def set_delete_def)
  from remove_after_upsert[of "''alice''" "''tok1''" None "''now2''" ?r "''bob''" ?qs] h1 h2 h3 t
  show ?thesis by simp
qed


section \<open>No empty Set is kept\<close>

text \<open>
  Claim C8. In every store reached from the empty one by a sequence of requests: no user
  entry holds an empty Set; a user has an entry exactly when \<open>tokensOf\<close> gives at least
  one token; removing the only token of a user deletes the user's entry; and \<open>tokensOf\<close>
  of a user without an entry is the empty list.
\<close>

theorem no_empty_user_entry:
  "tokensByUser (run qs empty_registry) u \<noteq> Some [] \<and>
   (tokensByUser (run qs empty_registry) u \<noteq> None) = (tokensOf (run qs empty_registry) u \<noteq> []) \<and>
   (set (tokensOf (run qs empty_registry) u) = {t} \<longrightarrow>
      tokensByUser (removeToken u t (run qs empty_registry)) u = None) \<and>
   (tokensByUser (run qs empty_registry) u = None \<longrightarrow> tokensOf (run qs empty_registry) u = [])"
proof (intro conjI impI)
  have inv: "store_inv (run qs empty_registry)" by (rule store_inv_reachable)
  show a: "tokensByUser (run qs empty_registry) u \<noteq> Some []"
    using inv unfolding store_inv_def by blast
  show "(tokensByUser (run qs empty_registry) u \<noteq> None) = (tokensOf (run qs empty_registry) u \<noteq> [])"
    using a by (cases "tokensByUser (run qs empty_registry) u") (simp_all add: tokensOf_def)
  show "tokensByUser (removeToken u t (run qs empty_registry)) u = None"
    if "set (tokensOf (run qs empty_registry) u) = {t}"
    using inv that by (rule singleton_entry_removed)
  show "tokensOf (run qs empty_registry) u = []" if "tokensByUser (run qs empty_registry) u = None"
    using that by (simp add: tokensOf_def)
qed

text \<open>
  Claim C8 on alice registering one token and unregistering it.
\<close>

theorem no_empty_user_entry_witness:
  "tokensOf (run [Register (Some ''alice'') (Some ''tok1'') None ''now1''] empty_registry) ''alice'' = [''tok1''] \<and>
   tokensByUser (removeToken ''alice'' ''tok1''
      (run [Register (Some ''alice'') (Some ''tok1'') None ''now1''] empty_registry)) ''alice'' = None \<and>
   tokensByUser (run [Register (Some ''alice'') (Some ''tok1'') None ''now1'',
                      Unregister (Some ''alice'') (Some ''tok1'')] empty_registry) ''alice'' = None \<and>
   tokensOf (run [Register (Some ''alice'') (Some ''tok1'') None ''now1'',
                  Unregister (Some ''alice'') (Some ''tok1'')] empty_registry) ''alice'' = []"
proof -
  let ?q1 = "[Register (Some ''alice'') (Some ''tok1'') None ''now1'']"
  let ?q2 = "[Register (Some ''alice'') (Some ''tok1'') None ''now1'',
              Unregister (Some ''alice'') (Some ''tok1'')]"
  have t: "tokensOf (run ?q1 empty_registry) ''alice'' = [''tok1'']"
    by (simp add: devices_register_def truthy_def tokensOf_upsert tokensOf_empty set_add_def)
  then have s: "set (tokensOf (run ?q1 empty_registry) ''alice'') = {''tok1''}" by simp
  have n: "tokensByUser (run ?q2 empty_registry) ''alice'' = None"
    by (simp add: devices_register_def devices_unregister_def truthy_def remove_tokensByUser
        upsert_tokensByUser tokensOf_upsert tokensOf_empty set_add_def set_delete_def)
  from no_empty_user_entry[of ?q1 "''alice''" "''tok1''"] no_empty_user_entry[of ?q2 "''alice''" "''tok1''"] t s n
  show ?thesis by simp
qed


section \<open>Sending to one token\<close>

text \<open>
  Claim C9. For a request with a token and a payload: when the provider returns a message
  id, the route replies with that id as it is; when the provider throws, the route replies
  500 with the error; in both cases the store is as it was.
\<close>

theorem sendToToken_result:
  assumes "tok \<noteq> []" "value_truthy dat"
  shows "(send tok (ensureStringData dat) (value_or andr high_priority) = Inr mid \<longrightarrow>
            reply (notifications_sendToToken (Some tok) dat andr send r) = Status200_messageId mid \<and>
            store (notifications_sendToToken (Some tok) dat andr send r) = r) \<and>
         (send tok (ensureStringData dat) (value_or andr high_priority) = Inl e \<longrightarrow>
            reply (notifications_sendToToken (Some tok) dat andr send r) = Status500 e \<and>
            store (notifications_sendToToken (Some tok) dat andr send r) = r)"
  using assms by (simp add: notifications_sendToToken_def truthy_def Let_def)

text \<open>
  Claim C9 on a provider that returns \<^verbatim>\<open>msg-42\<close> and on one that throws.
\<close>

theorem sendToToken_result_witness:
  "reply (notifications_sendToToken (Some ''tok1'') (Some (JObj [(''type'', JStr ''ping'')])) None
            (\<lambda>t d a. Inr ''msg-42'') empty_registry) = Status200_messageId ''msg-42'' \<and>
   reply (notifications_sendToToken (Some ''tok1'') (Some (JObj [(''type'', JStr ''ping'')])) None
            (\<lambda>t d a. Inl ''Error: quota exceeded'') empty_registry) = Status500 ''Error: quota exceeded'' \<and>
   store (notifications_sendToToken (Some ''tok1'') (Some (JObj [(''type'', JStr ''ping'')])) None
            (\<lambda>t d a. Inl ''Error: quota exceeded'') empty_registry) = empty_registry"
proof -
  have a: "''tok1'' \<noteq> []" by simp
  have b: "value_truthy (Some (JObj [(''type'', JStr ''ping'')]))" by (simp add: value_truthy_def)
  from sendToToken_result[OF a b, of "\<lambda>t d a. Inr ''msg-42''" None "''msg-42''" empty_registry]
       sendToToken_result[OF a b, of "\<lambda>t d a. Inl ''Error: quota exceeded''" None _ _ "''Error: quota exceeded''"]
  show ?thesis by simp
qed


section \<open>A provider failure during a send to a user\<close>

text \<open>
  Claim C10. For a request with a user id and a payload, to a user with tokens: when the
  multicast call of the provider throws, the route replies 500 with the error and the
  store is as it was.
\<close>

theorem send_provider_failure:
  assumes "u \<noteq> []" "value_truthy dat" "tokensOf r u \<noteq> []"
    and "prov (tokensOf r u) (ensureStringData dat) (value_or andr high_priority) = Inl e"
  shows "reply (notifications_send (Some u) dat andr prov r) = Status500 e \<and>
         store (notifications_send (Some u) dat andr prov r) = r"
  using assms
  by (cases "tokensByUser r u") (simp_all add: notifications_send_def truthy_def tokensOf_def Let_def)

text \<open>
  Claim C10 on alice with one token and a provider that throws.
\<close>

theorem send_provider_failure_witness:
  "reply (notifications_send (Some ''alice'') (Some (JObj [(''type'', JStr ''chat'')])) None
       (\<lambda>toks d a. Inl ''Error: network'')
       (upsertToken ''alice'' ''tok1'' None ''now1'' empty_registry)) = Status500 ''Error: network'' \<and>
   store (notifications_send (Some ''alice'') (Some (JObj [(''type'', JStr ''chat'')])) None
       (\<lambda>toks d a. Inl ''Error: network'')
       (upsertToken ''alice'' ''tok1'' None ''now1'' empty_registry)) =
     upsertToken ''alice'' ''tok1'' None ''now1'' empty_registry"
proof -
  have a: "''alice'' \<noteq> []" by simp
  have b: "value_truthy (Some (JObj [(''type'', JStr ''chat'')]))" by (simp add: value_truthy_def)
  have c: "tokensOf (upsertToken ''alice'' ''tok1'' None ''now1'' empty_registry) ''alice'' \<noteq> []"
    by (simp add: tokensOf_upsert set_add_not_Nil)
  have d: "(\<lambda>toks d a. Inl ''Error: network'')
     (tokensOf (upsertToken ''alice'' ''tok1'' None ''now1'' empty_registry) ''alice'')
     (ensureStringData (Some (JObj [(''type'', JStr ''chat'')]))) (value_or None high_priority)
     = (Inl ''Error: network'' :: string + batch_response)" by simp
  show ?thesis by (rule send_provider_failure[OF a b c d])
qed


end
